theory Spec2Isabelle
  imports Complex_Main
begin

section \<open>Python strings and dictionaries\<close>

text \<open>
  The three scripts (\<^verbatim>\<open>rag_chat_first.py\<close>, \<^verbatim>\<open>rag_chat_session.py\<close>,
  \<^verbatim>\<open>run_mpnet_tests.py\<close>) are embedded as HOL functions. A Python string is a
  \<^typ>\<open>string\<close>; a character stands for a code point below 256, which is where
  \<^verbatim>\<open>str.isspace\<close> and \<^verbatim>\<open>str.strip\<close> are modelled. \<^verbatim>\<open>str(i)\<close> of a
  non-negative integer is its decimal numeral, \<^verbatim>\<open>s.replace(a, b)\<close> for one-character
  \<^verbatim>\<open>a\<close>, \<^verbatim>\<open>b\<close> maps over the characters, \<^verbatim>\<open>sep.join(xs)\<close> puts the separator
  between consecutive elements, and \<^verbatim>\<open>d.get(k, default)\<close> reads a dictionary.
\<close>

definition py_whitespace :: "char list" where
  "py_whitespace = [CHR 0x09, CHR 0x0A, CHR 0x0B, CHR 0x0C, CHR 0x0D, CHR 0x1C, CHR 0x1D,
     CHR 0x1E, CHR 0x1F, CHR 0x20, CHR 0x85, CHR 0xA0]"

definition isspace :: "char \<Rightarrow> bool" where
  "isspace c = (c \<in> set py_whitespace)"

definition strip :: "string \<Rightarrow> string" where
  "strip s = rev (dropWhile isspace (rev (dropWhile isspace s)))"

definition replace_char :: "char \<Rightarrow> char \<Rightarrow> string \<Rightarrow> string" where
  "replace_char old new s = map (\<lambda>c. if c = old then new else c) s"

fun join :: "string \<Rightarrow> string list \<Rightarrow> string" where
  "join sep [] = []"
| "join sep [x] = x"
| "join sep (x # y # ys) = x @ sep @ join sep (y # ys)"

function str_nat :: "nat \<Rightarrow> string" where
  "str_nat n = (if n < 10 then [''0123456789'' ! n]
     else str_nat (n div 10) @ [''0123456789'' ! (n mod 10)])"
  by pat_completeness auto
termination
  by (relation "measure id") auto

declare str_nat.simps [simp del]

definition dict_get :: "('k \<rightharpoonup> 'v) \<Rightarrow> 'k \<Rightarrow> 'v \<Rightarrow> 'v" where
  "dict_get d k dflt = (case d k of None \<Rightarrow> dflt | Some v \<Rightarrow> v)"

section \<open>Context Assembler\<close>

text \<open>
  A retrieved chunk is a document: its text and its metadata dictionary, whose values
  are strings here (the loaders store the path of the file under \<^verbatim>\<open>source\<close>). The two
  formatting functions of \<^verbatim>\<open>rag_chat_first.py\<close> run a loop over
  \<^verbatim>\<open>enumerate(documents)\<close> that appends to a string; \<^verbatim>\<open>chat_with_memory\<close> of
  \<^verbatim>\<open>rag_chat_session.py\<close> joins a generator over \<^verbatim>\<open>enumerate(sources)\<close>.
\<close>

record document =
  page_content :: string
  metadata :: "string \<rightharpoonup> string"

fun context_loop :: "(nat \<times> document) list \<Rightarrow> string \<Rightarrow> string" where
  "context_loop [] content = content"
| "context_loop ((index, document) # rest) content =
     context_loop rest (content @ ''[doc'' @ str_nat (index + 1) @ '']=''
        @ replace_char CHR ''\<newline>'' CHR '' '' (page_content document) @ ''\<newline>\<newline>'')"

definition context_formatting :: "document list \<Rightarrow> string" where
  "context_formatting documents = context_loop (enumerate 0 documents) ''''"

fun source_loop :: "(nat \<times> document) list \<Rightarrow> string \<Rightarrow> string" where
  "source_loop [] sources = sources"
| "source_loop ((index, document) # rest) sources =
     source_loop rest (sources @ ''[doc'' @ str_nat (index + 1) @ '']=''
        @ dict_get (metadata document) ''source'' ''unknown'' @ ''\<newline>\<newline>'')"

definition source_formatting :: "document list \<Rightarrow> string" where
  "source_formatting documents = strip (source_loop (enumerate 0 documents) '''')"

definition source_lines :: "document list \<Rightarrow> string list" where
  "source_lines sources =
     map (\<lambda>(idx, doc). ''[source'' @ str_nat (idx + 1) @ ''] ''
            @ dict_get (metadata doc) ''source'' ''unknown'')
         (enumerate 0 sources)"

definition formatted_sources :: "document list \<Rightarrow> string" where
  "formatted_sources sources = join ''\<newline>\<newline>'' (source_lines sources)"


section \<open>Errors\<close>

text \<open>
  An exception is a value: \<open>Raised msg\<close> is an exception raised inside an external
  component (a document loader, the vector store, the language model); \<open>KeyError k\<close> is
  Python's own for \<^verbatim>\<open>result["k"]\<close> on a dictionary without that key. A call that raises
  returns \<open>Inl\<close>, as the uncaught exception leaves every enclosing function of the scripts.
\<close>

datatype error = Raised string | KeyError string

section \<open>Chunker: loading and splitting the corpus\<close>





section \<open>Index Store: create or load\<close>










section \<open>Single-turn pipeline\<close>

text \<open>
  The retriever and the chat model are external: \<open>retrieving question\<close> is
  \<^verbatim>\<open>retrieving.invoke(question)\<close>, and \<open>chat_model name prompt\<close> is the completion of the
  model of that name. \<open>rag_prompt\<close> is the template of \<^verbatim>\<open>generate\<close> with both slots filled.
\<close>

definition retrieve :: "(string \<Rightarrow> error + document list) \<Rightarrow> string \<Rightarrow> error + document list" where
  "retrieve retrieving question = retrieving question"

definition rag_prompt :: "string \<Rightarrow> string \<Rightarrow> string" where
  "rag_prompt question context =
     ''You are an assistant for question-answering tasks. Use the ''
     @ ''following pieces of retrieved context to answer the question. If ''
     @ ''you don't know the answer, just say that you don't know. Keep the ''
     @ ''answer concise, truthful, and informative. If you decide to use a ''
     @ ''source, you must mention in which document you found specific ''
     @ ''information. Sources are indicated in the context by ''
     @ ''[doc<doc_number>].\<newline>''
     @ ''Question: '' @ question @ '' \<newline>''
     @ ''Context: '' @ context @ '' \<newline>''
     @ ''Answer:''"

definition generate ::
  "(string \<Rightarrow> string \<Rightarrow> error + string) \<Rightarrow> string \<Rightarrow> string \<Rightarrow> string \<Rightarrow> error + string" where
  "generate chat_model question documents use_llm = chat_model use_llm (rag_prompt question documents)"

definition complete_rag ::
  "(string \<Rightarrow> error + document list) \<Rightarrow> (string \<Rightarrow> string \<Rightarrow> error + string) \<Rightarrow> string \<Rightarrow> string
     \<Rightarrow> error + (string \<times> string)" where
  "complete_rag retriever chat_model use_llm question =
     (case retrieve retriever question of
        Inl e \<Rightarrow> Inl e
      | Inr docs \<Rightarrow>
          (case generate chat_model question (context_formatting docs) use_llm of
             Inl e \<Rightarrow> Inl e
           | Inr output \<Rightarrow> Inr (source_formatting docs, output)))"

section \<open>Conversation Session\<close>

text \<open>
  The conversational chain is the library's; it owns a memory object that it reads and
  updates on every call. A chain is therefore a function of the memory and the question
  that returns the result dictionary and the new memory, or raises. The result has the
  key \<^verbatim>\<open>answer\<close>, read by subscript, and \<^verbatim>\<open>source_documents\<close>, read with a default.
  \<^verbatim>\<open>chat_with_memory\<close> gets the chat history from the interface and returns it extended,
  twice (for the chat window and for the state), with the references and the emptied
  question box.
\<close>

record chain_result =
  answer :: "string option"
  source_documents :: "document list option"

type_synonym 'mem chain = "'mem \<Rightarrow> string \<Rightarrow> error + (chain_result \<times> 'mem)"

record message =
  role :: string
  content :: string

definition chat_with_memory ::
  "'mem chain \<Rightarrow> 'mem \<Rightarrow> string \<Rightarrow> message list
     \<Rightarrow> error + ((message list \<times> message list \<times> string \<times> string) \<times> 'mem)" where
  "chat_with_memory qa mem user_input history =
     (case qa mem user_input of
        Inl e \<Rightarrow> Inl e
      | Inr (result, mem') \<Rightarrow>
          (case answer result of
             None \<Rightarrow> Inl (KeyError ''answer'')
           | Some ans \<Rightarrow>
               (let sources = (case source_documents result of None \<Rightarrow> [] | Some ds \<Rightarrow> ds);
                    formatted = formatted_sources sources;
                    history1 = history @ [\<lparr>role = ''user'', content = user_input\<rparr>];
                    history2 = history1 @ [\<lparr>role = ''assistant'', content = ans\<rparr>]
                in Inr ((history2, history2, formatted, []), mem'))))"

text \<open>
  The specification speaks of turns, one question with its answer. This is that view of
  the message list of the code: consecutive messages taken two by two.
\<close>

fun session_turns :: "message list \<Rightarrow> (string \<times> string) list" where
  "session_turns (u # a # rest) = (content u, content a) # session_turns rest"
| "session_turns _ = []"

section \<open>Benchmark Harness\<close>

text \<open>
  \<^verbatim>\<open>run_mpnet_tests.py\<close> is a script: two nested loops that append one row per call to
  \<^verbatim>\<open>results\<close>, then one write of the table. \<^verbatim>\<open>time.time()\<close> reads the wall clock: the
  clock is the sequence of its readings, and the state counts the readings taken.
  Seconds are real numbers here, and \<^verbatim>\<open>round(x, 2)\<close> rounds to the nearest hundredth, a
  tie to the even one. \<^verbatim>\<open>build_chain\<close> makes a new memory object and a chain over it:
  \<open>chain llm_name\<close> is that chain and \<open>new_memory\<close> the memory as constructed. A run
  returns the rows written to the output file, or the exception that ended the script.
\<close>

definition embedding_model_name :: string where
  "embedding_model_name = ''sentence-transformers/all-MiniLM-L6-v2''"



record benchmark_result =
  embeddingmodell :: string
  llm :: string
  fraga :: string
  modellens_svar :: string
  svarstid :: real

definition round2 :: "real \<Rightarrow> real" where
  "round2 x =
     (let y = x * 100; f = \<lfloor>y\<rfloor>; d = y - of_int f
      in of_int (if d < 1 / 2 then f else if 1 / 2 < d then f + 1
                 else if even f then f else f + 1) / 100)"

fun question_loop ::
  "(string \<Rightarrow> 'mem chain) \<Rightarrow> (nat \<Rightarrow> real) \<Rightarrow> string \<Rightarrow> string list
     \<Rightarrow> 'mem \<times> nat \<times> benchmark_result list \<Rightarrow> error + ('mem \<times> nat \<times> benchmark_result list)" where
  "question_loop chain clock llm_name [] s = Inr s"
| "question_loop chain clock llm_name (q # qs) (mem, t, results) =
     (let start_time = clock t in
      case chain llm_name mem q of
        Inl e \<Rightarrow> Inl e
      | Inr (response, mem') \<Rightarrow>
          (let end_time = clock (t + 1);
               elapsed = round2 (end_time - start_time)
           in case answer response of
                None \<Rightarrow> Inl (KeyError ''answer'')
              | Some ans \<Rightarrow>
                  question_loop chain clock llm_name qs
                    (mem', t + 2,
                     results @ [\<lparr>embeddingmodell = embedding_model_name, llm = llm_name,
                                 fraga = q, modellens_svar = ans, svarstid = elapsed\<rparr>])))"

fun llm_loop ::
  "(string \<Rightarrow> 'mem chain) \<Rightarrow> 'mem \<Rightarrow> (nat \<Rightarrow> real) \<Rightarrow> string list \<Rightarrow> string list
     \<Rightarrow> nat \<times> benchmark_result list \<Rightarrow> error + (nat \<times> benchmark_result list)" where
  "llm_loop chain new_memory clock [] qs s = Inr s"
| "llm_loop chain new_memory clock (llm_name # rest) qs (t, results) =
     (case question_loop chain clock llm_name qs (new_memory, t, results) of
        Inl e \<Rightarrow> Inl e
      | Inr (mem, t', results') \<Rightarrow> llm_loop chain new_memory clock rest qs (t', results'))"

definition run_mpnet_tests ::
  "(string \<Rightarrow> 'mem chain) \<Rightarrow> 'mem \<Rightarrow> (nat \<Rightarrow> real) \<Rightarrow> string list \<Rightarrow> string list
     \<Rightarrow> error + benchmark_result list" where
  "run_mpnet_tests chain new_memory clock llms qs =
     (case llm_loop chain new_memory clock llms qs (0, []) of
        Inl e \<Rightarrow> Inl e
      | Inr (t, results) \<Rightarrow> Inr results)"




section \<open>Concrete inputs\<close>

text \<open>
  Small corpora, file systems and stand-ins for the external components, on which the
  theorems below are evaluated.
\<close>

definition good_pdf :: document where
  "good_pdf = \<lparr>page_content = ''text of the good file'', metadata = [''source'' \<mapsto> ''docs/good.pdf'']\<rparr>"




definition no_hits :: "string \<Rightarrow> error + document list" where
  "no_hits question = Inr []"

definition canned_model :: "string \<Rightarrow> string \<Rightarrow> error + string" where
  "canned_model use_llm prompt = Inr ''I do not know.''"

definition canned_qa :: "nat chain" where
  "canned_qa mem question =
     Inr (\<lparr>answer = Some ''See the good file.'', source_documents = Some [good_pdf]\<rparr>, Suc mem)"

definition seconds :: "nat \<Rightarrow> real" where
  "seconds t = real t"

definition flaky_chain :: "string \<Rightarrow> unit chain" where
  "flaky_chain llm_name mem question =
     (if question = ''q2'' then Inl (Raised ''model unavailable'')
      else Inr (\<lparr>answer = Some ''an answer'', source_documents = Some []\<rparr>, mem))"




section \<open>Properties of the Context Assembler\<close>

lemma enumerate_as_upt:
  "enumerate k xs = map (\<lambda>N. (k + N - 1, xs ! (N - 1))) [1..<Suc (length xs)]"
proof (induction xs arbitrary: k)
  case Nil
  show ?case by simp
next
  case (Cons x xs)
  have "[1..<Suc (length (x # xs))] = 1 # map Suc [1..<Suc (length xs)]"
    by (simp add: upt_conv_Cons map_Suc_upt del: upt_Suc)
  then show ?case
    using Cons.IH [of "Suc k"] by (simp add: comp_def del: upt_Suc)
qed

lemma context_loop_concat:
  "context_loop ps acc = acc @ concat (map (\<lambda>(index, document).
      ''[doc'' @ str_nat (index + 1) @ '']=''
        @ replace_char CHR ''\<newline>'' CHR '' '' (page_content document) @ ''\<newline>\<newline>'') ps)"
  by (induction ps acc rule: context_loop.induct) simp_all

lemma source_loop_concat:
  "source_loop ps acc = acc @ concat (map (\<lambda>(index, document).
      ''[doc'' @ str_nat (index + 1) @ '']=''
        @ dict_get (metadata document) ''source'' ''unknown'' @ ''\<newline>\<newline>'') ps)"
  by (induction ps acc rule: source_loop.induct) simp_all

lemma str_nat_not_Nil: "str_nat n \<noteq> []"
  by (subst str_nat.simps) simp

lemma digit_inj: "a < 10 \<Longrightarrow> b < 10 \<Longrightarrow> ''0123456789'' ! a = ''0123456789'' ! b \<Longrightarrow> a = b"
proof -
  assume a: "a < 10" and b: "b < 10" and e: "''0123456789'' ! a = ''0123456789'' ! b"
  have d: "distinct ''0123456789''" by simp
  have "a < length ''0123456789''" "b < length ''0123456789''" using a b by simp_all
  with d e show "a = b" using nth_eq_iff_index_eq by blast
qed

lemma str_nat_inj: "str_nat m = str_nat n \<Longrightarrow> m = n"
proof (induction m arbitrary: n rule: str_nat.induct)
  case (1 m)
  show ?case
  proof (cases "m < 10")
    case m: True
    show ?thesis
    proof (cases "n < 10")
      case True
      with m "1.prems" show ?thesis
        by (simp add: str_nat.simps [of m] str_nat.simps [of n] digit_inj)
    next
      case False
      with m "1.prems" str_nat_not_Nil [of "n div 10"] show ?thesis
        by (simp add: str_nat.simps [of m] str_nat.simps [of n] Cons_eq_append_conv)
    qed
  next
    case m: False
    show ?thesis
    proof (cases "n < 10")
      case True
      with m "1.prems" str_nat_not_Nil [of "m div 10"] show ?thesis
        by (simp add: str_nat.simps [of m] str_nat.simps [of n] append_eq_Cons_conv)
    next
      case False
      with m "1.prems" have e: "str_nat (m div 10) = str_nat (n div 10)"
        and d: "''0123456789'' ! (m mod 10) = ''0123456789'' ! (n mod 10)"
        by (simp_all add: str_nat.simps [of m] str_nat.simps [of n])
      from "1.IH" [OF m e] have "m div 10 = n div 10" .
      moreover from d have "m mod 10 = n mod 10" by (intro digit_inj) simp_all
      ultimately show ?thesis by (metis div_mult_mod_eq)
    qed
  qed
qed

lemma map_enumerate_tags:
  "map (\<lambda>(index, d). f (index + 1) d) (enumerate 0 xs) =
     map (\<lambda>N. f N (xs ! (N - 1))) [1..<Suc (length xs)]"
proof -
  have "map (\<lambda>(index, d). f (index + 1) d) (enumerate 0 xs) =
      map (\<lambda>N. f (N - 1 + 1) (xs ! (N - 1))) [1..<Suc (length xs)]"
    by (simp add: enumerate_as_upt [of 0] comp_def del: upt_Suc)
  also have "\<dots> = map (\<lambda>N. f N (xs ! (N - 1))) [1..<Suc (length xs)]"
    by (rule map_cong [OF refl]) (simp del: upt_Suc)
  finally show ?thesis .
qed


lemma join_terminated:
  "ls \<noteq> [] \<Longrightarrow> concat (map (\<lambda>l. l @ sep) ls) = join sep ls @ sep"
  by (induction sep ls rule: join.induct) simp_all

lemma hd_join: "ls \<noteq> [] \<Longrightarrow> hd ls \<noteq> [] \<Longrightarrow> hd (join sep ls) = hd (hd ls)"
  by (induction sep ls rule: join.induct) simp_all

lemma join_last_not_Nil: "ls \<noteq> [] \<Longrightarrow> last ls \<noteq> [] \<Longrightarrow> join sep ls \<noteq> []"
  by (induction sep ls rule: join.induct) simp_all

lemma last_join: "ls \<noteq> [] \<Longrightarrow> last ls \<noteq> [] \<Longrightarrow> last (join sep ls) = last (last ls)"
proof (induction sep ls rule: join.induct)
  case (3 sep x y ys)
  then have "join sep (y # ys) \<noteq> []" by (intro join_last_not_Nil) simp_all
  with 3 show ?case by simp
qed simp_all

lemma join_not_Nil: "ls \<noteq> [] \<Longrightarrow> hd ls \<noteq> [] \<Longrightarrow> join sep ls \<noteq> []"
  by (induction sep ls rule: join.induct) simp_all

lemma strip_terminated:
  assumes "x \<noteq> []" "\<not> isspace (hd x)" "\<not> isspace (last x)"
  shows "strip (x @ ''\<newline>\<newline>'') = x"
proof -
  obtain a x' where x: "x = a # x'" using assms(1) by (cases x) auto
  have l: "dropWhile isspace (x @ ''\<newline>\<newline>'') = x @ ''\<newline>\<newline>''"
    using assms(2) by (simp add: x)
  have nl: "isspace CHR ''\<newline>''" by (simp add: isspace_def py_whitespace_def)
  obtain y b where y: "x = y @ [b]" using assms(1) by (cases x rule: rev_cases) auto
  have r: "dropWhile isspace (rev x) = rev x"
    using assms(3) by (simp add: y)
  show ?thesis unfolding strip_def l using nl r by simp
qed

lemma source_lines_closed:
  "source_lines docs =
     map (\<lambda>N. ''[source'' @ str_nat N @ ''] ''
            @ dict_get (metadata (docs ! (N - 1))) ''source'' ''unknown'')
         [1..<Suc (length docs)]"
  unfolding source_lines_def
  using map_enumerate_tags [of "\<lambda>N d. ''[source'' @ str_nat N @ ''] ''
            @ dict_get (metadata d) ''source'' ''unknown''" docs]
  by simp

lemma source_formatting_closed:
  "source_formatting docs =
     strip (concat (map (\<lambda>N. ''[doc'' @ str_nat N @ '']=''
            @ dict_get (metadata (docs ! (N - 1))) ''source'' ''unknown'' @ ''\<newline>\<newline>'')
         [1..<Suc (length docs)]))"
  unfolding source_formatting_def source_loop_concat
  using map_enumerate_tags [of "\<lambda>N d. ''[doc'' @ str_nat N @ '']=''
            @ dict_get (metadata d) ''source'' ''unknown'' @ ''\<newline>\<newline>''" docs]
  by simp

lemma distinct_tags: "distinct (map str_nat [1..<Suc n])"
  unfolding distinct_map
  by (intro conjI distinct_upt inj_onI) (rule str_nat_inj)

lemma source_formatting_join:
  assumes ne: "docs \<noteq> []"
    and ws: "dict_get (metadata (last docs)) ''source'' ''unknown'' = []
          \<or> \<not> isspace (last (dict_get (metadata (last docs)) ''source'' ''unknown''))"
  shows "source_formatting docs =
     join ''\<newline>\<newline>'' (map (\<lambda>N. ''[doc'' @ str_nat N @ '']=''
            @ dict_get (metadata (docs ! (N - 1))) ''source'' ''unknown'')
         [1..<Suc (length docs)])"
proof -
  let ?f = "\<lambda>N. ''[doc'' @ str_nat N @ '']=''
            @ dict_get (metadata (docs ! (N - 1))) ''source'' ''unknown''"
  let ?ls = "map ?f [1..<Suc (length docs)]"
  let ?x = "join ''\<newline>\<newline>'' ?ls"
  have n: "Suc 0 \<le> length docs" using ne by (cases docs) simp_all
  have ls: "?ls \<noteq> []" using n by (auto simp del: upt_Suc)
  have upc: "[Suc 0..<Suc (length docs)] = Suc 0 # [Suc (Suc 0)..<Suc (length docs)]"
    using ne by (intro upt_conv_Cons) simp
  have hdls: "hd ?ls = ?f 1"
    by (simp add: upc del: upt_Suc)
  have lastls: "last ?ls = ?f (length docs)"
    using n by (simp add: last_map)
  have "docs ! (length docs - 1) = last docs"
    using ne by (simp add: last_conv_nth)
  then have lastf: "\<not> isspace (last (?f (length docs)))"
    using ws by (auto simp add: isspace_def py_whitespace_def)
  have x1: "?x \<noteq> []"
    using ls hdls by (intro join_not_Nil) simp_all
  have x2: "\<not> isspace (hd ?x)"
    using ls hdls by (simp add: hd_join isspace_def py_whitespace_def)
  have ll: "last ?ls \<noteq> []" unfolding lastls by simp
  have "last ?x = last (last ?ls)" by (rule last_join [OF ls ll])
  then have "last ?x = last (?f (length docs))" by (simp only: lastls)
  then have x3: "\<not> isspace (last ?x)" using lastf by simp
  have "concat (map (\<lambda>N. ?f N @ ''\<newline>\<newline>'') [1..<Suc (length docs)])
        = concat (map (\<lambda>l. l @ ''\<newline>\<newline>'') ?ls)"
    by (simp add: comp_def del: upt_Suc)
  also have "\<dots> = ?x @ ''\<newline>\<newline>''"
    using ls by (rule join_terminated)
  finally have "source_formatting docs = strip (?x @ ''\<newline>\<newline>'')"
    unfolding source_formatting_closed by (simp del: upt_Suc)
  then show ?thesis using strip_terminated [OF x1 x2 x3] by simp
qed

text \<open>
  Claim C1. For a retrieved set of \<open>n\<close> chunks the source mapping has exactly \<open>n\<close>
  entries, tagged \<open>1\<close> to \<open>n\<close> in order without a gap, and entry \<open>N\<close> carries the
  \<^verbatim>\<open>source\<close> of the metadata of chunk \<open>N - 1\<close>, or \<^verbatim>\<open>unknown\<close> when the metadata has no
  such key. In the conversational script the entries are the lines \<^verbatim>\<open>[sourceN] src\<close>,
  joined by a blank line. In the single-turn script they are the blocks \<^verbatim>\<open>[docN]=src\<close>,
  each followed by a blank line, and the whole text is stripped: that removes the blank
  line after the last block, so that the text is the blocks joined by a blank line,
  whenever the last source does not itself end in white space. The tags of different
  entries are different numerals.
\<close>

theorem citation_mapping_entries:
  "source_lines docs =
     map (\<lambda>N. ''[source'' @ str_nat N @ ''] ''
            @ dict_get (metadata (docs ! (N - 1))) ''source'' ''unknown'')
         [1..<Suc (length docs)]
   \<and> length (source_lines docs) = length docs
   \<and> formatted_sources docs = join ''\<newline>\<newline>'' (source_lines docs)
   \<and> source_formatting docs =
       strip (concat (map (\<lambda>N. ''[doc'' @ str_nat N @ '']=''
            @ dict_get (metadata (docs ! (N - 1))) ''source'' ''unknown'' @ ''\<newline>\<newline>'')
         [1..<Suc (length docs)]))
   \<and> (docs \<noteq> [] \<and> (dict_get (metadata (last docs)) ''source'' ''unknown'' = []
          \<or> \<not> isspace (last (dict_get (metadata (last docs)) ''source'' ''unknown'')))
       \<longrightarrow> source_formatting docs =
         join ''\<newline>\<newline>'' (map (\<lambda>N. ''[doc'' @ str_nat N @ '']=''
            @ dict_get (metadata (docs ! (N - 1))) ''source'' ''unknown'')
         [1..<Suc (length docs)]))
   \<and> distinct (map str_nat [1..<Suc (length docs)])
   \<and> dict_get m ''source'' ''unknown'' =
       (case m ''source'' of None \<Rightarrow> ''unknown'' | Some src \<Rightarrow> src)"
proof (intro conjI impI)
  show "source_lines docs =
     map (\<lambda>N. ''[source'' @ str_nat N @ ''] ''
            @ dict_get (metadata (docs ! (N - 1))) ''source'' ''unknown'')
         [1..<Suc (length docs)]"
    by (rule source_lines_closed)
  show "length (source_lines docs) = length docs"
    by (simp add: source_lines_def)
  show "formatted_sources docs = join ''\<newline>\<newline>'' (source_lines docs)"
    by (simp add: formatted_sources_def)
  show "source_formatting docs =
       strip (concat (map (\<lambda>N. ''[doc'' @ str_nat N @ '']=''
            @ dict_get (metadata (docs ! (N - 1))) ''source'' ''unknown'' @ ''\<newline>\<newline>'')
         [1..<Suc (length docs)]))"
    by (rule source_formatting_closed)
  show "distinct (map str_nat [1..<Suc (length docs)])"
    by (rule distinct_tags)
  show "dict_get m ''source'' ''unknown'' =
       (case m ''source'' of None \<Rightarrow> ''unknown'' | Some src \<Rightarrow> src)"
    by (simp add: dict_get_def)
next
  assume "docs \<noteq> [] \<and> (dict_get (metadata (last docs)) ''source'' ''unknown'' = []
          \<or> \<not> isspace (last (dict_get (metadata (last docs)) ''source'' ''unknown'')))"
  then show "source_formatting docs =
         join ''\<newline>\<newline>'' (map (\<lambda>N. ''[doc'' @ str_nat N @ '']=''
            @ dict_get (metadata (docs ! (N - 1))) ''source'' ''unknown'')
         [1..<Suc (length docs)])"
    using source_formatting_join [of docs] by blast
qed

theorem citation_mapping_entries_witness:
  "formatted_sources
       [\<lparr>page_content = ''x'', metadata = [''source'' \<mapsto> ''a.pdf'']\<rparr>,
        \<lparr>page_content = ''y'', metadata = Map.empty\<rparr>]
     = ''[source1] a.pdf\<newline>\<newline>[source2] unknown''
   \<and> source_formatting
       [\<lparr>page_content = ''x'', metadata = [''source'' \<mapsto> ''a.pdf'']\<rparr>,
        \<lparr>page_content = ''y'', metadata = Map.empty\<rparr>]
     = ''[doc1]=a.pdf\<newline>\<newline>[doc2]=unknown''"
  using citation_mapping_entries
    [of "[\<lparr>page_content = ''x'', metadata = [''source'' \<mapsto> ''a.pdf'']\<rparr>,
          \<lparr>page_content = ''y'', metadata = Map.empty\<rparr>]" Map.empty]
  by (simp add: str_nat.simps dict_get_def strip_def isspace_def py_whitespace_def)

text \<open>
  Claim C4. The assembled context is the concatenation, in retrieval order, of one block
  per chunk: the tag \<^verbatim>\<open>[docN]\<close> of its 1-based position, an equals sign, the content of
  the chunk, and a blank line after it (after the last block too). In the content every
  newline is replaced by one space and nothing else changes: the length is kept, every
  other character stays where it is, and no newline is left.
\<close>

theorem context_formatting_blocks:
  "context_formatting documents =
     concat (map (\<lambda>N. ''[doc'' @ str_nat N @ '']=''
          @ replace_char CHR ''\<newline>'' CHR '' '' (page_content (documents ! (N - 1)))
          @ ''\<newline>\<newline>'') [1..<Suc (length documents)])
   \<and> length (replace_char CHR ''\<newline>'' CHR '' '' s) = length s
   \<and> (\<forall>i<length s. replace_char CHR ''\<newline>'' CHR '' '' s ! i =
         (if s ! i = CHR ''\<newline>'' then CHR '' '' else s ! i))
   \<and> CHR ''\<newline>'' \<notin> set (replace_char CHR ''\<newline>'' CHR '' '' s)"
proof (intro conjI)
  show "context_formatting documents =
     concat (map (\<lambda>N. ''[doc'' @ str_nat N @ '']=''
          @ replace_char CHR ''\<newline>'' CHR '' '' (page_content (documents ! (N - 1)))
          @ ''\<newline>\<newline>'') [1..<Suc (length documents)])"
    unfolding context_formatting_def context_loop_concat
    using map_enumerate_tags [of "\<lambda>N d. ''[doc'' @ str_nat N @ '']=''
          @ replace_char CHR ''\<newline>'' CHR '' '' (page_content d)
          @ ''\<newline>\<newline>''" documents]
    by simp
  show "length (replace_char CHR ''\<newline>'' CHR '' '' s) = length s"
    by (simp add: replace_char_def)
  show "\<forall>i<length s. replace_char CHR ''\<newline>'' CHR '' '' s ! i =
         (if s ! i = CHR ''\<newline>'' then CHR '' '' else s ! i)"
    by (simp add: replace_char_def)
  show "CHR ''\<newline>'' \<notin> set (replace_char CHR ''\<newline>'' CHR '' '' s)"
    by (auto simp add: replace_char_def)
qed

theorem context_formatting_blocks_witness:
  "context_formatting
       [\<lparr>page_content = ''a\<newline>b'', metadata = Map.empty\<rparr>,
        \<lparr>page_content = ''c'', metadata = Map.empty\<rparr>]
     = ''[doc1]=a b\<newline>\<newline>[doc2]=c\<newline>\<newline>''
   \<and> replace_char CHR ''\<newline>'' CHR '' '' ''a\<newline>b'' ! 1 = CHR '' ''"
  using context_formatting_blocks
    [of "[\<lparr>page_content = ''a\<newline>b'', metadata = Map.empty\<rparr>,
          \<lparr>page_content = ''c'', metadata = Map.empty\<rparr>]" "''a\<newline>b''"]
  by (simp add: str_nat.simps replace_char_def)

section \<open>Properties of the Chunker\<close>








section \<open>Properties of the Index Store\<close>



section \<open>Properties of the single-turn pipeline\<close>

text \<open>
  Claim C9. On an empty retrieved set the context is the empty text and so is the source
  mapping, in both scripts. \<^verbatim>\<open>complete_rag\<close> then still calls the chat model, on the
  prompt of the question with the empty context, and its outcome is the outcome of that
  call: the answer of the model with the empty sources, and a failure only if the model
  call itself fails.
\<close>

theorem empty_retrieval_still_generates:
  "context_formatting [] = []
   \<and> source_formatting [] = []
   \<and> formatted_sources [] = []
   \<and> (retriever question = Inr [] \<longrightarrow>
        complete_rag retriever chat_model use_llm question =
          (case chat_model use_llm (rag_prompt question []) of
             Inl e \<Rightarrow> Inl e
           | Inr output \<Rightarrow> Inr ([], output)))
   \<and> (retriever question = Inr [] \<and> chat_model use_llm (rag_prompt question []) = Inr output \<longrightarrow>
        complete_rag retriever chat_model use_llm question = Inr ([], output))"
proof -
  have c: "context_formatting [] = []"
    by (simp add: context_formatting_def enumerate_eq_zip)
  have s: "source_formatting [] = []"
    by (simp add: source_formatting_def strip_def enumerate_eq_zip)
  have f: "formatted_sources [] = []"
    by (simp add: formatted_sources_def source_lines_def enumerate_eq_zip)
  show ?thesis
    by (simp add: c s f complete_rag_def retrieve_def generate_def split: sum.splits)
qed

theorem empty_retrieval_still_generates_witness:
  "complete_rag no_hits canned_model ''mistral:instruct'' ''anything'' = Inr ([], ''I do not know.'')"
  using empty_retrieval_still_generates
      [of no_hits "''anything''" canned_model "''mistral:instruct''" "''I do not know.''"]
  by (simp add: no_hits_def canned_model_def)

section \<open>Properties of the Conversation Session\<close>

lemma session_turns_append:
  "even (length xs) \<Longrightarrow> session_turns (xs @ ys) = session_turns xs @ session_turns ys"
  by (induction xs rule: session_turns.induct) simp_all

lemma chat_with_memory_result:
  assumes "chat_with_memory qa mem user_input history = Inr ((chatbot, state, refs, box), mem')"
  shows "\<exists>result ans. qa mem user_input = Inr (result, mem') \<and> answer result = Some ans
     \<and> state = history @ [\<lparr>role = ''user'', content = user_input\<rparr>,
                           \<lparr>role = ''assistant'', content = ans\<rparr>]
     \<and> chatbot = state
     \<and> refs = formatted_sources (case source_documents result of None \<Rightarrow> [] | Some ds \<Rightarrow> ds)
     \<and> box = []"
  using assms
  by (auto simp add: chat_with_memory_def Let_def split: sum.splits option.splits prod.splits)

text \<open>
  Claim C7. A call of \<^verbatim>\<open>chat_with_memory\<close> that returns has appended to the history it
  was given the message of the user and then the message of the assistant with the
  answer of the chain, and nothing else: the history is a prefix of the new one, every
  message of it is still at its place, and the new history is two messages longer. Read
  as turns, a history of whole turns has grown by exactly one turn, the question with its
  answer. The chat window and the state receive the same list.
\<close>

theorem chat_with_memory_appends:
  assumes "chat_with_memory qa mem user_input history = Inr ((chatbot, state, refs, box), mem')"
  shows "\<exists>result ans. qa mem user_input = Inr (result, mem') \<and> answer result = Some ans
     \<and> state = history @ [\<lparr>role = ''user'', content = user_input\<rparr>,
                           \<lparr>role = ''assistant'', content = ans\<rparr>]
     \<and> chatbot = state
     \<and> length state = length history + 2
     \<and> take (length history) state = history
     \<and> (\<forall>i<length history. state ! i = history ! i)
     \<and> (even (length history) \<longrightarrow>
           session_turns state = session_turns history @ [(user_input, ans)]
           \<and> length (session_turns state) = length (session_turns history) + 1)"
proof -
  from chat_with_memory_result [OF assms] obtain result ans where
    r: "qa mem user_input = Inr (result, mem')" "answer result = Some ans"
      "state = history @ [\<lparr>role = ''user'', content = user_input\<rparr>,
                           \<lparr>role = ''assistant'', content = ans\<rparr>]"
      "chatbot = state"
    by blast
  have "even (length history) \<Longrightarrow>
      session_turns state = session_turns history @ [(user_input, ans)]"
    by (simp add: r(3) session_turns_append)
  with r show ?thesis by (auto simp add: nth_append)
qed

theorem chat_with_memory_appends_witness:
  "chat_with_memory canned_qa 0 ''Which file?'' [] =
     Inr (([\<lparr>role = ''user'', content = ''Which file?''\<rparr>,
            \<lparr>role = ''assistant'', content = ''See the good file.''\<rparr>],
           [\<lparr>role = ''user'', content = ''Which file?''\<rparr>,
            \<lparr>role = ''assistant'', content = ''See the good file.''\<rparr>],
           ''[source1] docs/good.pdf'', []), Suc 0)
   \<and> session_turns [\<lparr>role = ''user'', content = ''Which file?''\<rparr>,
            \<lparr>role = ''assistant'', content = ''See the good file.''\<rparr>]
       = [(''Which file?'', ''See the good file.'')]"
proof -
  have run: "chat_with_memory canned_qa 0 ''Which file?'' [] =
     Inr (([\<lparr>role = ''user'', content = ''Which file?''\<rparr>,
            \<lparr>role = ''assistant'', content = ''See the good file.''\<rparr>],
           [\<lparr>role = ''user'', content = ''Which file?''\<rparr>,
            \<lparr>role = ''assistant'', content = ''See the good file.''\<rparr>],
           ''[source1] docs/good.pdf'', []), Suc 0)"
    by (simp add: chat_with_memory_def Let_def canned_qa_def formatted_sources_def source_lines_def
        enumerate_eq_zip good_pdf_def dict_get_def str_nat.simps)
  from chat_with_memory_appends [OF run] run show ?thesis by simp
qed

text \<open>
  Claim C2. The references of a turn are the formatted sources of the chunks that the
  chain returned for that very call, whatever the memory, the history and the question:
  two calls, in any two states of any two sessions, whose chains return the same chunks
  produce the same references. The first entry always carries the number 1: the
  numbering comes from \<^verbatim>\<open>enumerate\<close>, which starts again at 0 on every call, and nothing
  of it is stored between calls. The same holds for the two formatting functions of the
  single-turn script, whose first block is always \<^verbatim>\<open>[doc1]\<close>.
\<close>

theorem citation_numbering_restarts:
  "(chat_with_memory qa mem user_input history = Inr ((chatbot, state, refs, box), mem') \<longrightarrow>
      (\<exists>result. qa mem user_input = Inr (result, mem')
         \<and> refs = formatted_sources
              (case source_documents result of None \<Rightarrow> [] | Some ds \<Rightarrow> ds)))
   \<and> (chat_with_memory qa mem user_input history = Inr ((chatbot, state, refs, box), mem')
        \<and> chat_with_memory qa2 mem2 user_input2 history2
            = Inr ((chatbot2, state2, refs2, box2), mem2')
        \<and> qa mem user_input = Inr (result, mem')
        \<and> qa2 mem2 user_input2 = Inr (result2, mem2')
        \<and> source_documents result = source_documents result2
       \<longrightarrow> refs = refs2)
   \<and> (\<exists>rest. formatted_sources (d # ds)
         = ''[source1] '' @ dict_get (metadata d) ''source'' ''unknown'' @ rest)
   \<and> (\<exists>rest. context_formatting (d # ds) = ''[doc1]='' @ rest)
   \<and> (\<exists>rest. source_loop (enumerate 0 (d # ds)) [] = ''[doc1]='' @ rest)"
proof (intro conjI impI)
  assume "chat_with_memory qa mem user_input history = Inr ((chatbot, state, refs, box), mem')"
  from chat_with_memory_result [OF this]
  show "\<exists>result. qa mem user_input = Inr (result, mem')
         \<and> refs = formatted_sources
              (case source_documents result of None \<Rightarrow> [] | Some ds \<Rightarrow> ds)"
    by blast
next
  assume a: "chat_with_memory qa mem user_input history = Inr ((chatbot, state, refs, box), mem')
        \<and> chat_with_memory qa2 mem2 user_input2 history2
            = Inr ((chatbot2, state2, refs2, box2), mem2')
        \<and> qa mem user_input = Inr (result, mem')
        \<and> qa2 mem2 user_input2 = Inr (result2, mem2')
        \<and> source_documents result = source_documents result2"
  from a chat_with_memory_result [of qa mem user_input history chatbot state refs box mem']
  have 1: "refs = formatted_sources
              (case source_documents result of None \<Rightarrow> [] | Some ds \<Rightarrow> ds)"
    by auto
  from a chat_with_memory_result
    [of qa2 mem2 user_input2 history2 chatbot2 state2 refs2 box2 mem2']
  have 2: "refs2 = formatted_sources
              (case source_documents result2 of None \<Rightarrow> [] | Some ds \<Rightarrow> ds)"
    by auto
  from 1 2 a show "refs = refs2" by simp
next
  show "\<exists>rest. formatted_sources (d # ds)
         = ''[source1] '' @ dict_get (metadata d) ''source'' ''unknown'' @ rest"
    by (cases ds)
      (simp_all add: formatted_sources_def source_lines_def enumerate_eq_zip
        upt_conv_Cons str_nat.simps del: upt_Suc)
  show "\<exists>rest. context_formatting (d # ds) = ''[doc1]='' @ rest"
    by (simp add: context_formatting_def context_loop_concat str_nat.simps)
  show "\<exists>rest. source_loop (enumerate 0 (d # ds)) [] = ''[doc1]='' @ rest"
    by (simp add: source_loop_concat str_nat.simps)
qed

theorem citation_numbering_restarts_witness:
  "chat_with_memory canned_qa 0 ''Which file?'' [] =
     Inr (([\<lparr>role = ''user'', content = ''Which file?''\<rparr>,
            \<lparr>role = ''assistant'', content = ''See the good file.''\<rparr>],
           [\<lparr>role = ''user'', content = ''Which file?''\<rparr>,
            \<lparr>role = ''assistant'', content = ''See the good file.''\<rparr>],
           ''[source1] docs/good.pdf'', []), Suc 0)
   \<and> chat_with_memory canned_qa 7 ''And then?'' [\<lparr>role = ''user'', content = ''Hi''\<rparr>,
            \<lparr>role = ''assistant'', content = ''Hello''\<rparr>] =
     Inr (([\<lparr>role = ''user'', content = ''Hi''\<rparr>,
            \<lparr>role = ''assistant'', content = ''Hello''\<rparr>,
            \<lparr>role = ''user'', content = ''And then?''\<rparr>,
            \<lparr>role = ''assistant'', content = ''See the good file.''\<rparr>],
           [\<lparr>role = ''user'', content = ''Hi''\<rparr>,
            \<lparr>role = ''assistant'', content = ''Hello''\<rparr>,
            \<lparr>role = ''user'', content = ''And then?''\<rparr>,
            \<lparr>role = ''assistant'', content = ''See the good file.''\<rparr>],
           ''[source1] docs/good.pdf'', []), 8)"
proof -
  have run1: "chat_with_memory canned_qa 0 ''Which file?'' [] =
     Inr (([\<lparr>role = ''user'', content = ''Which file?''\<rparr>,
            \<lparr>role = ''assistant'', content = ''See the good file.''\<rparr>],
           [\<lparr>role = ''user'', content = ''Which file?''\<rparr>,
            \<lparr>role = ''assistant'', content = ''See the good file.''\<rparr>],
           ''[source1] docs/good.pdf'', []), Suc 0)"
    by (simp add: chat_with_memory_def Let_def canned_qa_def formatted_sources_def source_lines_def
        enumerate_eq_zip good_pdf_def dict_get_def str_nat.simps)
  have run2: "chat_with_memory canned_qa 7 ''And then?'' [\<lparr>role = ''user'', content = ''Hi''\<rparr>,
            \<lparr>role = ''assistant'', content = ''Hello''\<rparr>] =
     Inr (([\<lparr>role = ''user'', content = ''Hi''\<rparr>,
            \<lparr>role = ''assistant'', content = ''Hello''\<rparr>,
            \<lparr>role = ''user'', content = ''And then?''\<rparr>,
            \<lparr>role = ''assistant'', content = ''See the good file.''\<rparr>],
           [\<lparr>role = ''user'', content = ''Hi''\<rparr>,
            \<lparr>role = ''assistant'', content = ''Hello''\<rparr>,
            \<lparr>role = ''user'', content = ''And then?''\<rparr>,
            \<lparr>role = ''assistant'', content = ''See the good file.''\<rparr>],
           ''[source1] docs/good.pdf'', []), 8)"
    by (simp add: chat_with_memory_def Let_def canned_qa_def formatted_sources_def source_lines_def
        enumerate_eq_zip good_pdf_def dict_get_def str_nat.simps)
  have q1: "canned_qa 0 ''Which file?'' =
      Inr (\<lparr>answer = Some ''See the good file.'', source_documents = Some [good_pdf]\<rparr>, Suc 0)"
    by (simp add: canned_qa_def)
  have q2: "canned_qa 7 ''And then?'' =
      Inr (\<lparr>answer = Some ''See the good file.'', source_documents = Some [good_pdf]\<rparr>, 8)"
    by (simp add: canned_qa_def)
  from citation_numbering_restarts
    [of canned_qa 0 "''Which file?''" "[]" _ _ "''[source1] docs/good.pdf''" "[]" "Suc 0"
        canned_qa 7 "''And then?''" _ _ _ "''[source1] docs/good.pdf''" "[]" 8]
    run1 run2 q1 q2
  show ?thesis by simp
qed

section \<open>Properties of the Benchmark Harness\<close>


lemma question_loop_append:
  "question_loop chain clock m (xs @ ys) s =
     (case question_loop chain clock m xs s of
        Inl e \<Rightarrow> Inl e
      | Inr s' \<Rightarrow> question_loop chain clock m ys s')"
proof (induction xs arbitrary: s)
  case Nil
  show ?case by simp
next
  case (Cons x xs s)
  obtain mem t rs where s: "s = (mem, t, rs)" by (cases s) auto
  show ?case
    by (simp add: s Cons.IH Let_def split: sum.splits option.splits prod.splits)
qed

lemma llm_loop_append:
  "llm_loop chain nm clock (xs @ ys) qs s =
     (case llm_loop chain nm clock xs qs s of
        Inl e \<Rightarrow> Inl e
      | Inr s' \<Rightarrow> llm_loop chain nm clock ys qs s')"
proof (induction xs arbitrary: s)
  case Nil
  show ?case by simp
next
  case (Cons x xs s)
  obtain t rs where s: "s = (t, rs)" by (cases s) auto
  show ?case
    by (simp add: s Cons.IH split: sum.splits prod.splits)
qed








text \<open>
  Claim C6 says that a failed call for one cell leaves the sweep running and that the
  rows of the completed cells are still written. With a chain that fails on the second
  of three questions, the run over two models ends with the exception of that call: the
  first cell had completed, and no row is written.
\<close>

theorem benchmark_failed_call_counterexample:
  "flaky_chain ''m1'' () ''q1''
     = Inr (\<lparr>answer = Some ''an answer'', source_documents = Some []\<rparr>, ())
   \<and> flaky_chain ''m1'' () ''q2'' = Inl (Raised ''model unavailable'')
   \<and> run_mpnet_tests flaky_chain () seconds [''m1'', ''m2''] [''q1'', ''q2'', ''q3'']
     = Inl (Raised ''model unavailable'')"
  by (simp add: run_mpnet_tests_def flaky_chain_def Let_def)

text \<open>
  Claim C6, as amended. A failed call ends the sweep. When the models before \<open>m\<close> have
  been run, the questions before \<open>q\<close> have been put to \<open>m\<close>, and the call for \<open>q\<close>
  raises, the run ends with that exception: the questions and models that remain are not
  run, and the output file is not written, so the rows of the completed cells are lost.
\<close>

theorem benchmark_stops_at_failed_call:
  assumes "llm_loop chain new_memory clock ms1 (qs1 @ q # qs2) (0, []) = Inr (t, rs)"
    and "question_loop chain clock m qs1 (new_memory, t, rs) = Inr (mem, t', rs')"
    and "chain m mem q = Inl e"
  shows "run_mpnet_tests chain new_memory clock (ms1 @ m # ms2) (qs1 @ q # qs2) = Inl e"
proof -
  have "question_loop chain clock m (qs1 @ q # qs2) (new_memory, t, rs) = Inl e"
    using assms(2,3) by (simp add: question_loop_append)
  then have "llm_loop chain new_memory clock (m # ms2) (qs1 @ q # qs2) (t, rs) = Inl e"
    by simp
  then have "llm_loop chain new_memory clock (ms1 @ m # ms2) (qs1 @ q # qs2) (0, []) = Inl e"
    using assms(1) by (simp add: llm_loop_append)
  then show ?thesis by (simp add: run_mpnet_tests_def)
qed

theorem benchmark_stops_at_failed_call_witness:
  "run_mpnet_tests flaky_chain () seconds [''m1'', ''m2''] [''q1'', ''q2'']
     = Inl (Raised ''model unavailable'')"
proof -
  have r: "round2 1 = 1" by (simp add: round2_def Let_def)
  have 1: "llm_loop flaky_chain () seconds [] ([''q1''] @ ''q2'' # []) (0, []) = Inr (0, [])"
    by simp
  have 2: "question_loop flaky_chain seconds ''m1'' [''q1''] ((), 0, [])
      = Inr ((), 2, [\<lparr>embeddingmodell = embedding_model_name, llm = ''m1'', fraga = ''q1'',
            modellens_svar = ''an answer'', svarstid = 1\<rparr>])"
    by (simp add: flaky_chain_def seconds_def Let_def r)
  have 3: "flaky_chain ''m1'' () ''q2'' = Inl (Raised ''model unavailable'')"
    by (simp add: flaky_chain_def)
  from benchmark_stops_at_failed_call [OF 1 2 3, of "[''m2'']"] show ?thesis by simp
qed






end
